theory Spec2Isabelle
  imports Main "HOL-Library.Sublist" "HOL-Library.Multiset"
begin

section \<open>Strings\<close>

text \<open>
  Role names and group names are JavaScript strings. They are modelled as \<open>string\<close>
  (a list of 8-bit characters), which covers the ASCII names the services compare against:
  every literal of the source (\<open>admin\<close>, \<open>editor\<close>, \<open>write\<close>, ...) is ASCII.
  \<open>String.prototype.toLowerCase\<close> maps \<open>A\<close>..\<open>Z\<close> to \<open>a\<close>..\<open>z\<close> and leaves every
  other ASCII character as it is.
\<close>

definition toLowerCaseChar :: "char \<Rightarrow> char" where
  "toLowerCaseChar c =
     (case map_of (zip ''ABCDEFGHIJKLMNOPQRSTUVWXYZ'' ''abcdefghijklmnopqrstuvwxyz'') c of
        Some l \<Rightarrow> l
      | None \<Rightarrow> c)"

definition toLowerCase :: "string \<Rightarrow> string" where
  "toLowerCase s = map toLowerCaseChar s"

text \<open>
  \<open>s.includes(t)\<close>: \<open>t\<close> occurs in \<open>s\<close> as a contiguous run of characters.
  \<open>startsWith s t\<close> compares \<open>t\<close> with the front of \<open>s\<close>; \<open>includes\<close> tries every
  start position from left to right (named \<open>includes_str\<close>: \<open>includes\<close> is reserved).
\<close>

fun startsWith :: "string \<Rightarrow> string \<Rightarrow> bool" where
  "startsWith s [] = True"
| "startsWith [] (c # cs) = False"
| "startsWith (x # xs) (c # cs) = (x = c \<and> startsWith xs cs)"

fun includes_str :: "string \<Rightarrow> string \<Rightarrow> bool" where
  "includes_str [] t = (t = [])"
| "includes_str (x # xs) t = (startsWith (x # xs) t \<or> includes_str xs t)"

section \<open>The permission record\<close>

record Permissions =
  canViewDashboard :: bool
  canManageUsers :: bool
  canSendEmails :: bool
  canViewReports :: bool
  canManageSettings :: bool

text \<open>The keys of the permission record (\<open>keyof UserProfile['permissions']\<close>).\<close>

datatype permission_key =
  CanViewDashboard | CanManageUsers | CanSendEmails | CanViewReports | CanManageSettings

text \<open>\<open>profile.permissions[permission]\<close>: the flag stored under a key.\<close>

fun permission_at :: "Permissions \<Rightarrow> permission_key \<Rightarrow> bool" where
  "permission_at p CanViewDashboard = canViewDashboard p"
| "permission_at p CanManageUsers = canManageUsers p"
| "permission_at p CanSendEmails = canSendEmails p"
| "permission_at p CanViewReports = canViewReports p"
| "permission_at p CanManageSettings = canManageSettings p"

text \<open>\<open>Object.values(permissions)\<close>: the five flags in declaration order.\<close>

definition objectValues :: "Permissions \<Rightarrow> bool list" where
  "objectValues p =
     [canViewDashboard p, canManageUsers p, canSendEmails p, canViewReports p,
      canManageSettings p]"

section \<open>AuthService: deriving permissions from roles\<close>

text \<open>\<open>initializePermissions(roles)\<close> ignores its argument and returns the all-false record.\<close>

definition initializePermissions :: "string list \<Rightarrow> Permissions" where
  "initializePermissions roles =
     \<lparr>canViewDashboard = False, canManageUsers = False, canSendEmails = False,
      canViewReports = False, canManageSettings = False\<rparr>"

text \<open>
  The body of the \<open>roles.forEach\<close> callback of \<open>calculatePermissions\<close>: one role mutates
  the record. The \<open>switch\<close> on the lower-cased role has four exact cases; the
  \<open>default\<close> branch runs three independent substring tests one after the other.
\<close>

definition calculatePermissions_role :: "Permissions \<Rightarrow> string \<Rightarrow> Permissions" where
  "calculatePermissions_role p role =
     (let roleLower = toLowerCase role in
      if roleLower = ''admin'' \<or> roleLower = ''administrator'' then
        p\<lparr>canViewDashboard := True, canManageUsers := True, canSendEmails := True,
          canViewReports := True, canManageSettings := True\<rparr>
      else if roleLower = ''editor'' then
        p\<lparr>canViewDashboard := True, canSendEmails := True, canViewReports := True\<rparr>
      else if roleLower = ''viewer'' then
        p\<lparr>canViewDashboard := True, canViewReports := True\<rparr>
      else if roleLower = ''user'' then
        p\<lparr>canViewDashboard := True\<rparr>
      else
        (let p1 = (if includes_str roleLower ''admin''
                   then p\<lparr>canManageUsers := True, canManageSettings := True\<rparr> else p);
             p2 = (if includes_str roleLower ''editor'' \<or> includes_str roleLower ''write''
                   then p1\<lparr>canSendEmails := True\<rparr> else p1);
             p3 = (if includes_str roleLower ''view'' \<or> includes_str roleLower ''read''
                   then p2\<lparr>canViewReports := True\<rparr> else p2)
         in p3))"

definition calculatePermissions :: "string list \<Rightarrow> Permissions" where
  "calculatePermissions roles =
     (let permissions = foldl calculatePermissions_role (initializePermissions roles) roles
      in if list_ex (\<lambda>v. v = True) (objectValues permissions)
         then permissions\<lparr>canViewDashboard := True\<rparr>
         else permissions)"


text \<open>
  The same derivation written from the specification's rules: every role grants a set of
  permission keys (the exact names first, the substring heuristics for any other name),
  a flag is on when some role grants it, and the dashboard flag is also on as soon as any
  flag is.
\<close>

definition spec_role_grants :: "string \<Rightarrow> permission_key list" where
  "spec_role_grants role =
     (let r = toLowerCase role in
      if r = ''admin'' \<or> r = ''administrator'' then
        [CanViewDashboard, CanManageUsers, CanSendEmails, CanViewReports, CanManageSettings]
      else if r = ''editor'' then [CanViewDashboard, CanSendEmails, CanViewReports]
      else if r = ''viewer'' then [CanViewDashboard, CanViewReports]
      else if r = ''user'' then [CanViewDashboard]
      else
        (if includes_str r ''admin'' then [CanManageUsers, CanManageSettings] else []) @
        (if includes_str r ''editor'' \<or> includes_str r ''write'' then [CanSendEmails] else []) @
        (if includes_str r ''view'' \<or> includes_str r ''read'' then [CanViewReports] else []))"

definition spec_granted :: "string list \<Rightarrow> permission_key set" where
  "spec_granted roles = set (concat (map spec_role_grants roles))"

definition spec_calculatePermissions :: "string list \<Rightarrow> Permissions" where
  "spec_calculatePermissions roles =
     (let g = spec_granted roles;
          anyTrue = (CanViewDashboard \<in> g \<or> CanManageUsers \<in> g \<or> CanSendEmails \<in> g \<or>
                     CanViewReports \<in> g \<or> CanManageSettings \<in> g)
      in \<lparr>canViewDashboard = (CanViewDashboard \<in> g \<or> anyTrue),
          canManageUsers = (CanManageUsers \<in> g),
          canSendEmails = (CanSendEmails \<in> g),
          canViewReports = (CanViewReports \<in> g),
          canManageSettings = (CanManageSettings \<in> g)\<rparr>)"

section \<open>GraphService: groups and the roles read off their names\<close>

text \<open>
  \<open>extractRolesFromGroup(groupName)\<close>: three independent tests on the lower-cased name,
  each pushing one role, and the default role when nothing was pushed.
\<close>

definition extractRolesFromGroup :: "string \<Rightarrow> string list" where
  "extractRolesFromGroup groupName =
     (let roles0 = [];
          roles1 = (if includes_str (toLowerCase groupName) ''admin''
                    then roles0 @ [''Admin''] else roles0);
          roles2 = (if includes_str (toLowerCase groupName) ''editor''
                    then roles1 @ [''Editor''] else roles1);
          roles3 = (if includes_str (toLowerCase groupName) ''viewer''
                    then roles2 @ [''Viewer''] else roles2)
      in if length roles3 = 0 then roles3 @ [''User''] else roles3)"

text \<open>
  What a call can throw or reject with: a \<open>TypeError\<close> of the language (a property read
  on \<open>null\<close> or \<open>undefined\<close>) or the failure of a request to the identity provider or
  to the directory.
\<close>

datatype error = TypeError | RequestFailed string

record AzureADGroup =
  group_id :: string
  group_displayName :: string
  group_description :: "string option"
  group_roles :: "string list"

record GraphUser =
  graph_id :: string
  graph_displayName :: string
  graph_mail :: string
  graph_userPrincipalName :: string
  graph_jobTitle :: "string option"
  graph_officeLocation :: "string option"
  graph_mobilePhone :: "string option"
  graph_businessPhones :: "string list option"

text \<open>One entry of the \<open>/me/memberOf\<close> response; \<open>None\<close> is a missing or null field.\<close>

record directory_object =
  odata_type :: string
  object_id :: string
  object_displayName :: "string option"
  object_description :: "string option"

text \<open>
  The \<open>for\<close> loop of \<open>getMyGroupsAndRoles\<close> over \<open>response.value\<close>: only entries of
  type group are kept; reading the roles off a missing name throws.
\<close>

fun collectGroups :: "directory_object list \<Rightarrow> AzureADGroup list \<Rightarrow> error + AzureADGroup list" where
  "collectGroups [] acc = Inr acc"
| "collectGroups (item # items) acc =
     (if odata_type item = ''#microsoft.graph.group'' then
        (case object_displayName item of
           None \<Rightarrow> Inl TypeError
         | Some n \<Rightarrow>
             collectGroups items
               (acc @ [\<lparr>group_id = object_id item, group_displayName = n,
                         group_description = object_description item,
                         group_roles = extractRolesFromGroup n\<rparr>]))
      else collectGroups items acc)"

text \<open>
  \<open>getMyGroupsAndRoles()\<close>, given the outcome of the authenticated \<open>/me/memberOf\<close>
  request (\<open>Inl\<close>: acquiring the client or the request failed; \<open>Inr v\<close>: the response's
  \<open>value\<close> field). Every failure inside is caught and gives the empty list.
\<close>

definition getMyGroupsAndRoles :: "error + directory_object list option \<Rightarrow> AzureADGroup list" where
  "getMyGroupsAndRoles response =
     (case response of
        Inl e \<Rightarrow> []
      | Inr None \<Rightarrow> []
      | Inr (Some items) \<Rightarrow>
          (case collectGroups items [] of Inl e \<Rightarrow> [] | Inr found \<Rightarrow> found))"

text \<open>
  \<open>getMyProfile()\<close>, given the outcome of the authenticated \<open>/me\<close> request: the error
  is logged and thrown again.
\<close>

definition getMyProfile :: "error + GraphUser \<Rightarrow> error + GraphUser" where
  "getMyProfile response = (case response of Inl e \<Rightarrow> Inl e | Inr u \<Rightarrow> Inr u)"

section \<open>AuthService: the profile and the auth state\<close>

record IdTokenClaims =
  claims_roles :: "string list option"
  claims_jobTitle :: "string option"
  claims_officeLocation :: "string option"

record AccountInfo =
  account_name :: "string option"
  account_username :: "string option"
  idTokenClaims :: "IdTokenClaims option"

record UserProfile =
  name :: string
  email :: string
  username :: string
  roles :: "string list"
  groups :: "AzureADGroup list"
  jobTitle :: "string option"
  officeLocation :: "string option"
  graphProfile :: "GraphUser option"
  permissions :: Permissions

text \<open>
  \<open>a || b\<close> on a string that may be missing: \<open>undefined\<close>, \<open>null\<close> and the empty
  string are falsy. \<open>or_string\<close> has a string on the right, \<open>or_optional\<close> a value that
  may itself be missing.
\<close>

definition or_string :: "string option \<Rightarrow> string \<Rightarrow> string" where
  "or_string a b = (case a of None \<Rightarrow> b | Some x \<Rightarrow> if x = [] then b else x)"

definition or_optional :: "string option \<Rightarrow> string option \<Rightarrow> string option" where
  "or_optional a b = (case a of None \<Rightarrow> b | Some x \<Rightarrow> if x = [] then b else Some x)"

text \<open>\<open>[...new Set(xs)]\<close>: the elements of \<open>xs\<close> in the order of their first occurrence.\<close>

definition newSet :: "string list \<Rightarrow> string list" where
  "newSet xs = foldl (\<lambda>seen x. if x \<in> set seen then seen else seen @ [x]) [] xs"

text \<open>
  The three subjects of the service and its readiness flag. \<open>history\<close> lists every value
  pushed into a subject with \<open>next\<close>, oldest first: it is what the subscribers of the
  three observables have been sent.
\<close>

datatype emission =
  ProfileNext "UserProfile option" | AuthenticatedNext bool | LoadingNext bool

record AuthState =
  userProfileSubject :: "UserProfile option"
  isAuthenticatedSubject :: bool
  isLoadingSubject :: bool
  isMsalInitialized :: bool
  history :: "emission list"

definition initialState :: AuthState where
  "initialState =
     \<lparr>userProfileSubject = None, isAuthenticatedSubject = False, isLoadingSubject = False,
      isMsalInitialized = False, history = []\<rparr>"

definition userProfileSubject_next :: "UserProfile option \<Rightarrow> AuthState \<Rightarrow> AuthState" where
  "userProfileSubject_next p s =
     s\<lparr>userProfileSubject := p, history := history s @ [ProfileNext p]\<rparr>"

definition isAuthenticatedSubject_next :: "bool \<Rightarrow> AuthState \<Rightarrow> AuthState" where
  "isAuthenticatedSubject_next b s =
     s\<lparr>isAuthenticatedSubject := b, history := history s @ [AuthenticatedNext b]\<rparr>"

definition isLoadingSubject_next :: "bool \<Rightarrow> AuthState \<Rightarrow> AuthState" where
  "isLoadingSubject_next b s =
     s\<lparr>isLoadingSubject := b, history := history s @ [LoadingNext b]\<rparr>"

text \<open>
  A statement block that may throw: it returns the thrown error or its value, and the
  state it leaves. \<open>try_catch\<close> runs the handler on the state the body left;
  \<open>try_finally\<close> runs the final block on every exit and keeps the body's outcome.
\<close>

type_synonym 'a block = "AuthState \<Rightarrow> (error + 'a) \<times> AuthState"

definition try_catch :: "'a block \<Rightarrow> (error \<Rightarrow> 'a block) \<Rightarrow> 'a block" where
  "try_catch body handler s =
     (case body s of (Inl e, s') \<Rightarrow> handler e s' | (Inr v, s') \<Rightarrow> (Inr v, s'))"

definition try_finally :: "'a block \<Rightarrow> (AuthState \<Rightarrow> AuthState) \<Rightarrow> 'a block" where
  "try_finally body final s = (case body s of (r, s') \<Rightarrow> (r, final s'))"

section \<open>AuthService: loading the profile\<close>

text \<open>
  The \<open>basicProfile\<close> object literal of \<open>loadUserProfile(account: any)\<close>. The account
  is read with plain property access, so an account that is \<open>null\<close> or \<open>undefined\<close>
  (\<open>None\<close>) throws; the claims are read with \<open>?.\<close> and may be missing.
\<close>

definition basicProfile :: "AccountInfo option \<Rightarrow> error + UserProfile" where
  "basicProfile account =
     (case account of
        None \<Rightarrow> Inl TypeError
      | Some a \<Rightarrow>
          Inr \<lparr>name = or_string (account_name a) ''User'',
               email = or_string (account_username a) '''',
               username = or_string (account_username a) '''',
               roles = (case idTokenClaims a of
                          None \<Rightarrow> []
                        | Some c \<Rightarrow> (case claims_roles c of None \<Rightarrow> [] | Some rs \<Rightarrow> rs)),
               groups = [],
               jobTitle = (case idTokenClaims a of None \<Rightarrow> None | Some c \<Rightarrow> claims_jobTitle c),
               officeLocation =
                 (case idTokenClaims a of None \<Rightarrow> None | Some c \<Rightarrow> claims_officeLocation c),
               graphProfile = None,
               permissions = initializePermissions []\<rparr>)"

text \<open>The \<open>fullProfile\<close> built when both directory calls have returned.\<close>

definition fullProfile :: "UserProfile \<Rightarrow> GraphUser \<Rightarrow> AzureADGroup list \<Rightarrow> UserProfile" where
  "fullProfile basic gp grps =
     (let allRoles = foldl (\<lambda>acc g. acc @ group_roles g) (roles basic) grps;
          uniqueRoles = newSet allRoles
      in basic\<lparr>graphProfile := Some gp,
               groups := grps,
               roles := uniqueRoles,
               jobTitle := or_optional (graph_jobTitle gp) (jobTitle basic),
               officeLocation := or_optional (graph_officeLocation gp) (officeLocation basic),
               permissions := calculatePermissions uniqueRoles\<rparr>)"

text \<open>The \<open>fallbackProfile\<close> of the inner \<open>catch\<close> and the \<open>errorProfile\<close> of the outer one.\<close>

definition fallbackProfile :: "UserProfile \<Rightarrow> UserProfile" where
  "fallbackProfile basic = basic\<lparr>permissions := calculatePermissions (roles basic)\<rparr>"

definition errorProfile :: UserProfile where
  "errorProfile =
     \<lparr>name = ''User'', email = '''', username = '''', roles = [''User''], groups = [],
      jobTitle = None, officeLocation = None, graphProfile = None,
      permissions = calculatePermissions [''User'']\<rparr>"

text \<open>
  \<open>loadUserProfile(account)\<close>. The two awaited directory calls are given by their
  outcomes: \<open>graphMe\<close> for the \<open>/me\<close> request behind \<open>getMyProfile\<close> and
  \<open>graphMemberOf\<close> for the \<open>/me/memberOf\<close> request behind \<open>getMyGroupsAndRoles\<close>
  (acquiring the token and the client is part of each outcome). The function is the
  source's \<open>try { try {...} catch {...} } catch {...} finally {...}\<close> after the first
  \<open>next(true)\<close>; its result is \<open>Inl\<close> when an error leaves the function.
\<close>

definition loadUserProfile ::
  "AccountInfo option \<Rightarrow> error + GraphUser \<Rightarrow> error + directory_object list option \<Rightarrow> unit block"
where
  "loadUserProfile account graphMe graphMemberOf s0 =
     try_finally
       (try_catch
          (\<lambda>s. case basicProfile account of
                 Inl e \<Rightarrow> (Inl e, s)
               | Inr basic \<Rightarrow>
                   try_catch
                     (\<lambda>s. case getMyProfile graphMe of
                            Inl e \<Rightarrow> (Inl e, s)
                          | Inr gp \<Rightarrow>
                              (Inr (),
                               userProfileSubject_next
                                 (Some (fullProfile basic gp (getMyGroupsAndRoles graphMemberOf))) s))
                     (\<lambda>graphError s.
                        (Inr (), userProfileSubject_next (Some (fallbackProfile basic)) s))
                     s)
          (\<lambda>err s. (Inr (), userProfileSubject_next (Some errorProfile) s)))
       (\<lambda>s. (isLoadingSubject_next False s)\<lparr>isMsalInitialized := True\<rparr>)
       (isLoadingSubject_next True s0)"

section \<open>AuthService: queries\<close>

text \<open>
  Each query reads \<open>userProfileSubject.value\<close> and answers at once when it is
  \<open>null\<close>. The parameter \<open>roles\<close> of \<open>hasAnyRole\<close> is called \<open>wanted\<close> here,
  \<open>roles\<close> being the field of the profile; the parameter of \<open>hasPermission\<close> is a
  key of the permission record, as its signature says.
\<close>

definition hasRole :: "AuthState \<Rightarrow> string \<Rightarrow> bool" where
  "hasRole s role =
     (case userProfileSubject s of
        None \<Rightarrow> False
      | Some profile \<Rightarrow>
          list_ex (\<lambda>userRole. toLowerCase userRole = toLowerCase role) (roles profile))"

definition hasAnyRole :: "AuthState \<Rightarrow> string list \<Rightarrow> bool" where
  "hasAnyRole s wanted =
     (case userProfileSubject s of
        None \<Rightarrow> False
      | Some profile \<Rightarrow>
          list_ex (\<lambda>role. list_ex (\<lambda>userRole. toLowerCase userRole = toLowerCase role)
                                   (roles profile)) wanted)"

definition hasPermission :: "AuthState \<Rightarrow> permission_key \<Rightarrow> bool" where
  "hasPermission s permission =
     (case userProfileSubject s of
        None \<Rightarrow> False
      | Some profile \<Rightarrow> permission_at (permissions profile) permission)"

definition roleHierarchy :: "string list" where
  "roleHierarchy = [''Admin'', ''Editor'', ''Viewer'', ''User'']"

text \<open>
  \<open>getHighestRole()\<close>: the \<open>for\<close> loop returns the first entry of the hierarchy that
  \<open>profile.roles.includes\<close>; after it, \<open>profile.roles[0] || 'User'\<close>.
\<close>

definition getHighestRole :: "AuthState \<Rightarrow> string" where
  "getHighestRole s =
     (case userProfileSubject s of
        None \<Rightarrow> ''User''
      | Some profile \<Rightarrow>
          if length (roles profile) = 0 then ''User''
          else (case find (\<lambda>role. role \<in> set (roles profile)) roleHierarchy of
                  Some role \<Rightarrow> role
                | None \<Rightarrow>
                    or_string (case roles profile of [] \<Rightarrow> None | r # _ \<Rightarrow> Some r) ''User''))"

definition getPermissions :: "AuthState \<Rightarrow> Permissions option" where
  "getPermissions s =
     (case userProfileSubject s of None \<Rightarrow> None | Some profile \<Rightarrow> Some (permissions profile))"

definition getRoles :: "AuthState \<Rightarrow> string list" where
  "getRoles s = (case userProfileSubject s of None \<Rightarrow> [] | Some profile \<Rightarrow> roles profile)"

section \<open>AuthService: the operations that write the auth state\<close>

text \<open>
  The service is asynchronous: \<open>loadUserProfile\<close> is started without being awaited, its
  \<open>.then\<close> callback is detached, \<open>login\<close> and \<open>logout\<close> subscribe to a popup. The
  operations are therefore given by the synchronous blocks the event loop runs, one at a
  time: the call of a public method up to its first suspension, and each continuation
  that is resumed later. A \<open>task\<close> is a continuation that is waiting (for a collaborator
  to answer, or in the queue of callbacks); a configuration is the store with the
  waiting tasks. A public method is called between two blocks; the subscribers that are
  called inside a block, at each value pushed, only read the store.

  \<open>Outcomes\<close> is what the collaborators answer to the block that is running: the session
  provider's cached accounts, its \<open>initialize\<close>, \<open>loginPopup\<close> and \<open>logoutPopup\<close>, and
  the two directory requests. The token acquisition inside a directory request is part
  of that request's outcome; it can set the readiness flag \<open>isMsalInitialized\<close> early,
  which only decides whether a later \<open>login\<close> asks the provider to initialize, and that
  answer is arbitrary here.
\<close>

record Outcomes =
  getAllAccounts :: "error + AccountInfo list"
  msalInitialize :: "error + unit"
  loginPopup :: "error + unit"
  logoutPopup :: "error + unit"
  graphMe :: "error + GraphUser"
  graphMemberOf :: "error + directory_object list option"

text \<open>
  What is attached to the promise of a \<open>loadUserProfile\<close> call:
  \<open>.then(() => isAuthenticatedSubject.next(true))\<close> in \<open>initializeAuth\<close> and \<open>login\<close>,
  nothing that writes the store in \<open>refreshUserProfile\<close>.
\<close>

datatype completion = ThenAuthenticated | NoCallback

datatype task =
    AwaitMyProfile UserProfile completion
  | AwaitMyGroups UserProfile GraphUser completion
  | AuthenticatedCallback
  | AwaitMsalInitialize
  | LoginThen bool
  | AwaitLoginPopup
  | AwaitLogoutPopup

record config =
  store :: AuthState
  tasks :: "task list"

definition queue :: "task \<Rightarrow> config \<Rightarrow> config" where
  "queue t c = c\<lparr>tasks := tasks c @ [t]\<rparr>"

subsection \<open>loadUserProfile, block by block\<close>

text \<open>
  The \<open>finally\<close> block of \<open>loadUserProfile\<close>, and what happens when its promise is
  fulfilled: the attached callback is queued, to run in a later block.
\<close>

definition loadUserProfile_finally :: "AuthState \<Rightarrow> AuthState" where
  "loadUserProfile_finally s = (isLoadingSubject_next False s)\<lparr>isMsalInitialized := True\<rparr>"

definition loadUserProfile_settled :: "completion \<Rightarrow> config \<Rightarrow> config" where
  "loadUserProfile_settled k c =
     (case k of ThenAuthenticated \<Rightarrow> queue AuthenticatedCallback c | NoCallback \<Rightarrow> c)"

text \<open>
  The call of \<open>loadUserProfile(account)\<close> up to \<open>await getMyProfile()\<close>: loading is set,
  the basic profile is built; when that throws, the outer \<open>catch\<close> and the \<open>finally\<close>
  run in the same block and the promise is settled.
\<close>

definition loadUserProfile_start :: "AccountInfo option \<Rightarrow> completion \<Rightarrow> config \<Rightarrow> config" where
  "loadUserProfile_start account k c =
     (let s1 = isLoadingSubject_next True (store c) in
      case basicProfile account of
        Inl e \<Rightarrow>
          loadUserProfile_settled k
            (c\<lparr>store := loadUserProfile_finally (userProfileSubject_next (Some errorProfile) s1)\<rparr>)
      | Inr basic \<Rightarrow> queue (AwaitMyProfile basic k) (c\<lparr>store := s1\<rparr>))"

text \<open>
  The continuation after \<open>await getMyProfile()\<close>: a rejection goes to the inner
  \<open>catch\<close>, which publishes the fallback profile; otherwise the function suspends again
  at \<open>await getMyGroupsAndRoles()\<close>.
\<close>

definition loadUserProfile_afterMyProfile ::
  "UserProfile \<Rightarrow> completion \<Rightarrow> Outcomes \<Rightarrow> config \<Rightarrow> config"
where
  "loadUserProfile_afterMyProfile basic k env c =
     (case getMyProfile (graphMe env) of
        Inl graphError \<Rightarrow>
          loadUserProfile_settled k
            (c\<lparr>store := loadUserProfile_finally
                          (userProfileSubject_next (Some (fallbackProfile basic)) (store c))\<rparr>)
      | Inr gp \<Rightarrow> queue (AwaitMyGroups basic gp k) c)"

text \<open>The continuation after \<open>await getMyGroupsAndRoles()\<close>, to the end of the function.\<close>

definition loadUserProfile_afterMyGroups ::
  "UserProfile \<Rightarrow> GraphUser \<Rightarrow> completion \<Rightarrow> Outcomes \<Rightarrow> config \<Rightarrow> config"
where
  "loadUserProfile_afterMyGroups basic gp k env c =
     loadUserProfile_settled k
       (c\<lparr>store := loadUserProfile_finally
                     (userProfileSubject_next
                        (Some (fullProfile basic gp (getMyGroupsAndRoles (graphMemberOf env))))
                        (store c))\<rparr>)"

subsection \<open>The constructor\<close>

text \<open>
  \<open>initializeAuth()\<close>: with a cached account the load is started, not awaited, with the
  callback that sets the authenticated flag; then the readiness flag is set. An error of
  \<open>getAllAccounts\<close> is caught and logged.
\<close>

definition initializeAuth :: "Outcomes \<Rightarrow> config \<Rightarrow> config" where
  "initializeAuth env c =
     (case getAllAccounts env of
        Inl e \<Rightarrow> c
      | Inr accounts \<Rightarrow>
          if length accounts > 0
          then (let c' = loadUserProfile_start (Some (accounts ! 0)) ThenAuthenticated c
                in c'\<lparr>store := (store c')\<lparr>isMsalInitialized := True\<rparr>\<rparr>)
          else c\<lparr>store := (store c)\<lparr>isMsalInitialized := True\<rparr>\<rparr>)"

definition constructor :: "Outcomes \<Rightarrow> config" where
  "constructor env = initializeAuth env \<lparr>store = initialState, tasks = []\<rparr>"

subsection \<open>login\<close>

text \<open>
  The call of \<open>login()\<close>: loading is set and \<open>ensureMSALInitialized()\<close> is called, which
  returns at once when the readiness flag is set and otherwise waits for the provider's
  \<open>initialize\<close>. In both cases the \<open>.then(isInitialized => ...)\<close> callback of \<open>login\<close>
  runs in a later block.
\<close>

definition login_call :: "config \<Rightarrow> config" where
  "login_call c =
     (let c1 = c\<lparr>store := isLoadingSubject_next True (store c)\<rparr> in
      if isMsalInitialized (store c1) then queue (LoginThen True) c1
      else queue AwaitMsalInitialize c1)"

text \<open>The continuation of \<open>ensureMSALInitialized\<close> after \<open>await initialize()\<close>.\<close>

definition ensureMSALInitialized_resume :: "Outcomes \<Rightarrow> config \<Rightarrow> config" where
  "ensureMSALInitialized_resume env c =
     (case msalInitialize env of
        Inr u \<Rightarrow> queue (LoginThen True) (c\<lparr>store := (store c)\<lparr>isMsalInitialized := True\<rparr>\<rparr>)
      | Inl e \<Rightarrow> queue (LoginThen False) c)"

text \<open>The \<open>.then(isInitialized => ...)\<close> callback of \<open>login\<close>, up to the subscription.\<close>

definition login_then :: "bool \<Rightarrow> config \<Rightarrow> config" where
  "login_then isInitialized c =
     (if \<not> isInitialized then c\<lparr>store := isLoadingSubject_next False (store c)\<rparr>
      else queue AwaitLoginPopup c)"

text \<open>
  The subscriber of \<open>loginPopup\<close>. On \<open>next\<close> the accounts are read (an error thrown
  there ends the callback where it stands), the load of the first account is started,
  not awaited, with the callback that sets the authenticated flag, and loading is
  cleared in the same block. On \<open>error\<close> loading is cleared.
\<close>

definition login_popup :: "Outcomes \<Rightarrow> config \<Rightarrow> config" where
  "login_popup env c =
     (case loginPopup env of
        Inl e \<Rightarrow> c\<lparr>store := isLoadingSubject_next False (store c)\<rparr>
      | Inr response \<Rightarrow>
          (case getAllAccounts env of
             Inl e \<Rightarrow> c
           | Inr accounts \<Rightarrow>
               (let c' = (if length accounts > 0
                          then loadUserProfile_start (Some (accounts ! 0)) ThenAuthenticated c
                          else c)
                in c'\<lparr>store := isLoadingSubject_next False (store c')\<rparr>)))"

subsection \<open>logout, reset, refreshUserProfile\<close>

definition logout_call :: "config \<Rightarrow> config" where
  "logout_call c = queue AwaitLogoutPopup (c\<lparr>store := isLoadingSubject_next True (store c)\<rparr>)"

text \<open>The subscriber of \<open>logoutPopup\<close>: \<open>next\<close> pushes three values in a row.\<close>

definition logout_popup :: "Outcomes \<Rightarrow> config \<Rightarrow> config" where
  "logout_popup env c =
     (case logoutPopup env of
        Inr u \<Rightarrow>
          c\<lparr>store := isLoadingSubject_next False
                        (isAuthenticatedSubject_next False
                           (userProfileSubject_next None (store c)))\<rparr>
      | Inl e \<Rightarrow> c\<lparr>store := isLoadingSubject_next False (store c)\<rparr>)"

text \<open>\<open>reset()\<close> is synchronous; it does not cancel what is waiting.\<close>

definition reset :: "AuthState \<Rightarrow> AuthState" where
  "reset s =
     (isLoadingSubject_next False
        (isAuthenticatedSubject_next False (userProfileSubject_next None s)))
       \<lparr>isMsalInitialized := False\<rparr>"

text \<open>
  \<open>refreshUserProfile()\<close>: an error of \<open>getAllAccounts\<close> rejects the returned promise
  and writes nothing; otherwise the load of the first account is awaited, and nothing
  that writes the store follows it.
\<close>

definition refreshUserProfile :: "Outcomes \<Rightarrow> config \<Rightarrow> config" where
  "refreshUserProfile env c =
     (case getAllAccounts env of
        Inl e \<Rightarrow> c
      | Inr accounts \<Rightarrow>
          if length accounts > 0
          then loadUserProfile_start (Some (accounts ! 0)) NoCallback c
          else c)"

subsection \<open>The event loop\<close>

text \<open>
  An event is one block that runs: a public method is called, or the task at some
  position of the waiting list is resumed (anything that waits may be resumed next; a
  position with no task runs nothing). \<open>execute\<close> runs a sequence of events.
\<close>

datatype operation = Login | Logout | Reset | RefreshUserProfile

datatype event = Call operation Outcomes | Resume nat Outcomes

fun run_task :: "task \<Rightarrow> Outcomes \<Rightarrow> config \<Rightarrow> config" where
  "run_task (AwaitMyProfile basic k) env c = loadUserProfile_afterMyProfile basic k env c"
| "run_task (AwaitMyGroups basic gp k) env c = loadUserProfile_afterMyGroups basic gp k env c"
| "run_task AuthenticatedCallback env c = c\<lparr>store := isAuthenticatedSubject_next True (store c)\<rparr>"
| "run_task AwaitMsalInitialize env c = ensureMSALInitialized_resume env c"
| "run_task (LoginThen isInitialized) env c = login_then isInitialized c"
| "run_task AwaitLoginPopup env c = login_popup env c"
| "run_task AwaitLogoutPopup env c = logout_popup env c"

fun fire :: "config \<Rightarrow> event \<Rightarrow> config" where
  "fire c (Call Login env) = login_call c"
| "fire c (Call Logout env) = logout_call c"
| "fire c (Call Reset env) = c\<lparr>store := reset (store c)\<rparr>"
| "fire c (Call RefreshUserProfile env) = refreshUserProfile env c"
| "fire c (Resume n env) =
     (if n < length (tasks c)
      then run_task (tasks c ! n) env (c\<lparr>tasks := take n (tasks c) @ drop (Suc n) (tasks c)\<rparr>)
      else c)"

definition execute :: "config \<Rightarrow> event list \<Rightarrow> config" where
  "execute c es = foldl fire c es"

subsection \<open>The states the subjects go through\<close>

text \<open>
  The profile and the authenticated flag change with every value pushed, also in the
  middle of a block, where the subscribers are called. \<open>states_after\<close> replays a history
  from given values of the two and lists, for every value pushed, that value with the
  profile and the flag right after it.
\<close>

fun emit :: "emission \<Rightarrow> UserProfile option \<times> bool \<Rightarrow> UserProfile option \<times> bool" where
  "emit (ProfileNext p) (q, a) = (p, a)"
| "emit (AuthenticatedNext b) (q, a) = (q, b)"
| "emit (LoadingNext b) (q, a) = (q, a)"

fun states_after ::
  "UserProfile option \<times> bool \<Rightarrow> emission list \<Rightarrow> (emission \<times> UserProfile option \<times> bool) list"
where
  "states_after st [] = []"
| "states_after st (e # es) = (e, emit e st) # states_after (emit e st) es"

text \<open>
  An event clears the profile when it runs \<open>reset\<close> or the \<open>next\<close> branch of the
  \<open>logoutPopup\<close> subscriber. A sequence of events keeps the clearing apart from the
  completion of a load when no such event runs while the callback of a finished load
  is still waiting.
\<close>

fun clears :: "config \<Rightarrow> event \<Rightarrow> bool" where
  "clears c (Call Reset env) = True"
| "clears c (Call Login env) = False"
| "clears c (Call Logout env) = False"
| "clears c (Call RefreshUserProfile env) = False"
| "clears c (Resume n env) =
     (n < length (tasks c) \<and> tasks c ! n = AwaitLogoutPopup \<and>
      (case logoutPopup env of Inr u \<Rightarrow> True | Inl e \<Rightarrow> False))"

fun clearing_apart :: "config \<Rightarrow> event list \<Rightarrow> bool" where
  "clearing_apart c [] = True"
| "clearing_apart c (e # es) =
     ((clears c e \<longrightarrow> AuthenticatedCallback \<notin> set (tasks c)) \<and> clearing_apart (fire c e) es)"

text \<open>
  Invariants of the store and of a configuration: the history replays to the current
  profile and flag; an authenticated state without profile occurs in the replay only
  right after the profile was cleared; at the end of a block an authenticated store
  holds a profile; and a waiting callback of a finished load finds a profile.
\<close>

definition replayed :: "AuthState \<Rightarrow> UserProfile option \<times> bool" where
  "replayed s = foldl (\<lambda>st e. emit e st) (None, False) (history s)"

definition store_ok :: "AuthState \<Rightarrow> bool" where
  "store_ok s =
     (replayed s = (userProfileSubject s, isAuthenticatedSubject s) \<and>
      (\<forall>(e, p, a) \<in> set (states_after (None, False) (history s)).
          a \<and> p = None \<longrightarrow> e = ProfileNext None) \<and>
      (isAuthenticatedSubject s \<longrightarrow> userProfileSubject s \<noteq> None))"

definition config_ok :: "config \<Rightarrow> bool" where
  "config_ok c =
     (store_ok (store c) \<and>
      (AuthenticatedCallback \<in> set (tasks c) \<longrightarrow> userProfileSubject (store c) \<noteq> None))"

text \<open>
  A session used in examples: one cached account, a provider whose \<open>initialize\<close> and
  popups succeed, and a directory that cannot be reached.
\<close>

definition offline_session :: Outcomes where
  "offline_session =
     \<lparr>getAllAccounts =
        Inr [\<lparr>account_name = Some ''Ann'', account_username = Some ''ann@example.com'',
              idTokenClaims = None\<rparr>],
      msalInitialize = Inr (), loginPopup = Inr (), logoutPopup = Inr (),
      graphMe = Inl (RequestFailed ''offline''), graphMemberOf = Inr None\<rparr>"

section \<open>Substring search is the usual notion\<close>

lemma startsWith_prefix: "startsWith s t \<longleftrightarrow> prefix t s"
  by (induction s t rule: startsWith.induct) auto

lemma includes_str_sublist: "includes_str s t \<longleftrightarrow> sublist t s"
  by (induction s) (auto simp: startsWith_prefix sublist_Cons_right)

section \<open>Permissions derived from roles\<close>

text \<open>One role turns on exactly the flags the rules grant it and leaves the others.\<close>

lemma role_step_at:
  "permission_at (calculatePermissions_role p r) k =
     (permission_at p k \<or> k \<in> set (spec_role_grants r))"
  by (cases k) (auto simp: calculatePermissions_role_def spec_role_grants_def Let_def)

lemma foldl_roles_at:
  "permission_at (foldl calculatePermissions_role p rs) k =
     (permission_at p k \<or> k \<in> spec_granted rs)"
proof (induction rs arbitrary: p)
  case Nil
  show ?case by (simp add: spec_granted_def)
next
  case (Cons r rs)
  have "permission_at (foldl calculatePermissions_role p (r # rs)) k =
          (permission_at (calculatePermissions_role p r) k \<or> k \<in> spec_granted rs)"
    using Cons.IH [of "calculatePermissions_role p r"] by simp
  also have "\<dots> = (permission_at p k \<or> k \<in> spec_granted (r # rs))"
    by (auto simp: role_step_at spec_granted_def)
  finally show ?case .
qed

lemma initial_at: "permission_at (initializePermissions rs) k = False"
  by (cases k) (simp_all add: initializePermissions_def)

lemma folded_at:
  "permission_at (foldl calculatePermissions_role (initializePermissions rs) rs) k =
     (k \<in> spec_granted rs)"
  by (simp add: foldl_roles_at initial_at)

lemma permissions_eq_at:
  assumes "\<And>k. permission_at p k = permission_at q k"
  shows "(p :: Permissions) = q"
  using assms [of CanViewDashboard] assms [of CanManageUsers] assms [of CanSendEmails]
        assms [of CanViewReports] assms [of CanManageSettings]
  by simp

lemma key_set_nonempty:
  "((g :: permission_key set) \<noteq> {}) =
     (CanViewDashboard \<in> g \<or> CanManageUsers \<in> g \<or> CanSendEmails \<in> g \<or>
      CanViewReports \<in> g \<or> CanManageSettings \<in> g)"
proof
  assume "g \<noteq> {}"
  then obtain k where "k \<in> g" by blast
  then show "CanViewDashboard \<in> g \<or> CanManageUsers \<in> g \<or> CanSendEmails \<in> g \<or>
      CanViewReports \<in> g \<or> CanManageSettings \<in> g"
    by (cases k) simp_all
qed blast

lemma calculatePermissions_at:
  "permission_at (calculatePermissions rs) k =
     (k \<in> spec_granted rs \<or> (k = CanViewDashboard \<and> spec_granted rs \<noteq> {}))"
proof -
  let ?f = "foldl calculatePermissions_role (initializePermissions rs) rs"
  have "list_ex (\<lambda>v. v = True) (objectValues ?f) = (\<exists>k. permission_at ?f k)"
    unfolding objectValues_def
    by (auto intro: permission_at.simps [THEN iffD2] elim: permission_at.elims(2))
  then have some: "list_ex (\<lambda>v. v = True) (objectValues ?f) = (spec_granted rs \<noteq> {})"
    by (auto simp: folded_at)
  show ?thesis
    unfolding calculatePermissions_def Let_def some
    using folded_at [of rs k] by (cases k) auto
qed

lemma calculatePermissions_refines:
  "calculatePermissions rs = spec_calculatePermissions rs"
proof (rule permissions_eq_at)
  fix k
  show "permission_at (calculatePermissions rs) k =
          permission_at (spec_calculatePermissions rs) k"
    unfolding calculatePermissions_at key_set_nonempty
    by (cases k) (simp_all add: spec_calculatePermissions_def Let_def)
qed

lemma spec_granted_mono: "set R \<subseteq> set R' \<Longrightarrow> spec_granted R \<subseteq> spec_granted R'"
  by (auto simp: spec_granted_def)

lemmas evaluate_roles =
  calculatePermissions_def calculatePermissions_role_def initializePermissions_def
  objectValues_def toLowerCase_def toLowerCaseChar_def Let_def

text \<open>
  C1. For every list of roles, \<open>calculatePermissions\<close> returns the record the
  specification's rules give: all flags start false; a role that is, in lower case,
  \<open>admin\<close> or \<open>administrator\<close> turns all five on, \<open>editor\<close> turns on dashboard, sendEmails
  and viewReports, \<open>viewer\<close> dashboard and viewReports, \<open>user\<close> the dashboard, and any
  other role goes through the substring heuristics; at the end the dashboard flag is on
  as soon as any flag is. For \<open>["CustomWriteRole"]\<close> the result has canSendEmails and
  canViewDashboard on and the other three off.
\<close>

theorem calculatePermissions_follows_rules:
  "calculatePermissions rs = spec_calculatePermissions rs \<and>
   calculatePermissions [''CustomWriteRole''] =
     \<lparr>canViewDashboard = True, canManageUsers = False, canSendEmails = True,
      canViewReports = False, canManageSettings = False\<rparr>"
proof
  show "calculatePermissions rs = spec_calculatePermissions rs"
    by (rule calculatePermissions_refines)
  show "calculatePermissions [''CustomWriteRole''] =
     \<lparr>canViewDashboard = True, canManageUsers = False, canSendEmails = True,
      canViewReports = False, canManageSettings = False\<rparr>"
    by (simp add: evaluate_roles)
qed

text \<open>
  C2. For every list of roles, if any of the five flags of the record returned by
  \<open>calculatePermissions\<close> is true, then canViewDashboard is true.
\<close>

theorem dashboard_when_any_permission:
  "canViewDashboard (calculatePermissions rs) \<or> canManageUsers (calculatePermissions rs) \<or>
   canSendEmails (calculatePermissions rs) \<or> canViewReports (calculatePermissions rs) \<or>
   canManageSettings (calculatePermissions rs)
   \<Longrightarrow> canViewDashboard (calculatePermissions rs)"
  by (cases "list_ex (\<lambda>v. v = True)
               (objectValues (foldl calculatePermissions_role (initializePermissions rs) rs))")
     (auto simp: calculatePermissions_def Let_def objectValues_def)

theorem dashboard_when_any_permission_witness:
  "canSendEmails (calculatePermissions [''CustomWriteRole'']) \<and>
   canViewDashboard (calculatePermissions [''CustomWriteRole''])"
proof -
  have h: "canSendEmails (calculatePermissions [''CustomWriteRole''])"
    by (simp add: evaluate_roles)
  then have "canViewDashboard (calculatePermissions [''CustomWriteRole''])"
    using dashboard_when_any_permission [of "[''CustomWriteRole'']"] by blast
  with h show ?thesis by blast
qed

text \<open>
  C3. \<open>calculatePermissions\<close> is monotonic and independent of the order of the roles:
  when every role of \<open>R\<close> is a role of \<open>R'\<close>, every flag that is true for \<open>R\<close> is true
  for \<open>R'\<close>; and a permutation of the roles gives the same record.
\<close>

theorem calculatePermissions_monotone_and_order_independent:
  "(set R \<subseteq> set R' \<longrightarrow>
      (\<forall>k. permission_at (calculatePermissions R) k \<longrightarrow>
           permission_at (calculatePermissions R') k)) \<and>
   (mset R = mset R' \<longrightarrow> calculatePermissions R = calculatePermissions R')"
proof (intro conjI impI allI)
  fix k
  assume "set R \<subseteq> set R'" and "permission_at (calculatePermissions R) k"
  then show "permission_at (calculatePermissions R') k"
    using spec_granted_mono [of R R'] unfolding calculatePermissions_at by blast
next
  assume "mset R = mset R'"
  then have "set R = set R'" by (rule mset_eq_setD)
  then have "spec_granted R = spec_granted R'" by (simp add: spec_granted_def)
  then show "calculatePermissions R = calculatePermissions R'"
    by (simp add: calculatePermissions_refines spec_calculatePermissions_def)
qed

theorem calculatePermissions_monotone_and_order_independent_witness:
  "set [''Viewer''] \<subseteq> set [''Viewer'', ''Admin''] \<and>
   permission_at (calculatePermissions [''Viewer'']) CanViewReports \<and>
   permission_at (calculatePermissions [''Viewer'', ''Admin'']) CanViewReports \<and>
   mset [''Editor'', ''ReadOnly''] = mset [''ReadOnly'', ''Editor''] \<and>
   calculatePermissions [''Editor'', ''ReadOnly''] = calculatePermissions [''ReadOnly'', ''Editor'']"
proof -
  have sub: "set [''Viewer''] \<subseteq> set [''Viewer'', ''Admin'']" by simp
  have on: "permission_at (calculatePermissions [''Viewer'']) CanViewReports"
    by (simp add: evaluate_roles)
  have perm: "mset [''Editor'', ''ReadOnly''] = mset [''ReadOnly'', ''Editor'']" by simp
  from sub on perm show ?thesis
    using calculatePermissions_monotone_and_order_independent
            [of "[''Viewer'']" "[''Viewer'', ''Admin'']"]
          calculatePermissions_monotone_and_order_independent
            [of "[''Editor'', ''ReadOnly'']" "[''ReadOnly'', ''Editor'']"]
    by blast
qed

section \<open>Roles read off a group name\<close>

lemmas evaluate_group = extractRolesFromGroup_def toLowerCase_def toLowerCaseChar_def Let_def

text \<open>
  C4. Role extraction matches substrings of the lower-cased group name: the result
  holds \<open>Admin\<close> exactly when the name contains \<open>admin\<close>, \<open>Editor\<close> exactly when it
  contains \<open>editor\<close>, \<open>Viewer\<close> exactly when it contains \<open>viewer\<close>, so that one name can
  give several roles (\<open>AdminEditor\<close> gives two); when no rule matches the result is
  exactly \<open>["User"]\<close>; and two names that are equal in lower case give the same roles,
  as \<open>ADMIN-team\<close> and \<open>admin-team\<close> do.
\<close>

theorem extractRolesFromGroup_rules:
  "(''Admin'' \<in> set (extractRolesFromGroup g)) = includes_str (toLowerCase g) ''admin'' \<and>
   (''Editor'' \<in> set (extractRolesFromGroup g)) = includes_str (toLowerCase g) ''editor'' \<and>
   (''Viewer'' \<in> set (extractRolesFromGroup g)) = includes_str (toLowerCase g) ''viewer'' \<and>
   (\<not> includes_str (toLowerCase g) ''admin'' \<and> \<not> includes_str (toLowerCase g) ''editor'' \<and>
    \<not> includes_str (toLowerCase g) ''viewer'' \<longrightarrow> extractRolesFromGroup g = [''User'']) \<and>
   (toLowerCase g = toLowerCase g' \<longrightarrow> extractRolesFromGroup g = extractRolesFromGroup g') \<and>
   extractRolesFromGroup ''AdminEditor'' = [''Admin'', ''Editor''] \<and>
   extractRolesFromGroup ''ADMIN-team'' = extractRolesFromGroup ''admin-team''"
proof (intro conjI impI)
  show "(''Admin'' \<in> set (extractRolesFromGroup g)) = includes_str (toLowerCase g) ''admin''"
    by (simp add: extractRolesFromGroup_def Let_def)
  show "(''Editor'' \<in> set (extractRolesFromGroup g)) = includes_str (toLowerCase g) ''editor''"
    by (simp add: extractRolesFromGroup_def Let_def)
  show "(''Viewer'' \<in> set (extractRolesFromGroup g)) = includes_str (toLowerCase g) ''viewer''"
    by (simp add: extractRolesFromGroup_def Let_def)
  show "extractRolesFromGroup g = [''User'']"
    if "\<not> includes_str (toLowerCase g) ''admin'' \<and> \<not> includes_str (toLowerCase g) ''editor'' \<and>
        \<not> includes_str (toLowerCase g) ''viewer''"
    using that by (simp add: extractRolesFromGroup_def Let_def)
  show "extractRolesFromGroup g = extractRolesFromGroup g'"
    if "toLowerCase g = toLowerCase g'"
    using that by (simp add: extractRolesFromGroup_def)
  show "extractRolesFromGroup ''AdminEditor'' = [''Admin'', ''Editor'']"
    by (simp add: evaluate_group)
  show "extractRolesFromGroup ''ADMIN-team'' = extractRolesFromGroup ''admin-team''"
    by (simp add: evaluate_group)
qed

theorem extractRolesFromGroup_rules_witness:
  "\<not> includes_str (toLowerCase ''Sales'') ''admin'' \<and>
   \<not> includes_str (toLowerCase ''Sales'') ''editor'' \<and>
   \<not> includes_str (toLowerCase ''Sales'') ''viewer'' \<and>
   extractRolesFromGroup ''Sales'' = [''User''] \<and>
   toLowerCase ''Report-VIEWERS'' = toLowerCase ''report-viewers'' \<and>
   extractRolesFromGroup ''Report-VIEWERS'' = extractRolesFromGroup ''report-viewers''"
proof -
  have none: "\<not> includes_str (toLowerCase ''Sales'') ''admin'' \<and>
      \<not> includes_str (toLowerCase ''Sales'') ''editor'' \<and>
      \<not> includes_str (toLowerCase ''Sales'') ''viewer''"
    by (simp add: toLowerCase_def toLowerCaseChar_def)
  have same: "toLowerCase ''Report-VIEWERS'' = toLowerCase ''report-viewers''"
    by (simp add: toLowerCase_def toLowerCaseChar_def)
  from none same show ?thesis
    using extractRolesFromGroup_rules [of "''Sales''" "''Sales''"]
          extractRolesFromGroup_rules [of "''Report-VIEWERS''" "''report-viewers''"]
    by blast
qed

section \<open>Loading the profile\<close>

text \<open>
  Whatever the account and the directory answer, \<open>loadUserProfile\<close> returns normally
  and has pushed three values: loading on, one profile, loading off.
\<close>

lemma loadUserProfile_outcome:
  "loadUserProfile account gm gmo s =
     (Inr (),
      (isLoadingSubject_next False
         (userProfileSubject_next
            (Some (case basicProfile account of
                     Inl e \<Rightarrow> errorProfile
                   | Inr basic \<Rightarrow>
                       (case getMyProfile gm of
                          Inl e \<Rightarrow> fallbackProfile basic
                        | Inr gp \<Rightarrow> fullProfile basic gp (getMyGroupsAndRoles gmo))))
            (isLoadingSubject_next True s)))\<lparr>isMsalInitialized := True\<rparr>)"
  by (simp add: loadUserProfile_def try_finally_def try_catch_def split: sum.splits)

lemmas subject_next =
  isLoadingSubject_next_def userProfileSubject_next_def isAuthenticatedSubject_next_def

lemmas evaluate_profile =
  basicProfile_def fallbackProfile_def errorProfile_def or_string_def getMyProfile_def

text \<open>
  C5 as stated fails: for an account whose claims carry the role \<open>Admin\<close>, the basic
  profile of step 1 is built, has the roles \<open>["Admin"]\<close>, and its permissions are not
  \<open>calculatePermissions ["Admin"]\<close>.
\<close>

theorem basic_profile_permissions_counterexample:
  "(case basicProfile
          (Some \<lparr>account_name = Some ''Ann'', account_username = Some ''ann@example.com'',
                 idTokenClaims = Some \<lparr>claims_roles = Some [''Admin''], claims_jobTitle = None,
                                        claims_officeLocation = None\<rparr>\<rparr>) of
      Inr basic \<Rightarrow> roles basic = [''Admin''] \<and>
                   permissions basic \<noteq> calculatePermissions [''Admin'']
    | Inl e \<Rightarrow> False)"
  by (simp add: basicProfile_def evaluate_roles)

text \<open>
  C5, amended. The basic profile of step 1 takes its name from the account (\<open>User\<close>
  when the account has none), its username and email from the account's username, its
  roles from the embedded claims only, has no groups, and has a permission record with
  all five flags false. The permissions derived from the claims-only roles are those of
  the profile published when the enrichment fails: that profile is the basic profile
  with \<open>calculatePermissions\<close> of its roles.
\<close>

theorem basic_profile_fields:
  "\<exists>basic.
     basicProfile (Some a) = Inr basic \<and>
     name basic = or_string (account_name a) ''User'' \<and>
     username basic = or_string (account_username a) '''' \<and>
     email basic = or_string (account_username a) '''' \<and>
     roles basic =
       (case idTokenClaims a of
          None \<Rightarrow> []
        | Some c \<Rightarrow> (case claims_roles c of None \<Rightarrow> [] | Some rs \<Rightarrow> rs)) \<and>
     groups basic = [] \<and>
     permissions basic =
       \<lparr>canViewDashboard = False, canManageUsers = False, canSendEmails = False,
        canViewReports = False, canManageSettings = False\<rparr> \<and>
     userProfileSubject (snd (loadUserProfile (Some a) (Inl e) gmo s)) =
       Some (basic\<lparr>permissions := calculatePermissions (roles basic)\<rparr>)"
  by (simp add: loadUserProfile_outcome evaluate_profile initializePermissions_def subject_next)

text \<open>
  C6 as stated fails: when the account is \<open>null\<close>, building the basic profile throws
  and the profile that is published has the name \<open>User\<close>, not the empty string.
\<close>

theorem fallback_name_counterexample:
  "basicProfile None = Inl TypeError \<and>
   map_option name
     (userProfileSubject
        (snd (loadUserProfile None (Inl (RequestFailed ''offline'')) (Inr None) initialState)))
     = Some ''User'' \<and>
   ''User'' \<noteq> ''''"
  by (simp add: loadUserProfile_outcome evaluate_profile subject_next)

text \<open>
  C6, amended. When building the basic profile fails, \<open>loadUserProfile\<close> publishes a
  minimal profile whose name is \<open>User\<close>, whose email and username are empty, whose
  roles are exactly \<open>["User"]\<close>, whose groups are empty and whose permissions are
  \<open>calculatePermissions ["User"]\<close>.
\<close>

theorem step1_failure_publishes_minimal_profile:
  assumes "basicProfile account = Inl e"
  shows "\<exists>p. userProfileSubject (snd (loadUserProfile account gm gmo s)) = Some p \<and>
             history (snd (loadUserProfile account gm gmo s)) =
               history s @ [LoadingNext True, ProfileNext (Some p), LoadingNext False] \<and>
             name p = ''User'' \<and> email p = '''' \<and> username p = '''' \<and>
             roles p = [''User''] \<and> groups p = [] \<and>
             permissions p = calculatePermissions [''User'']"
  using assms
  by (simp add: loadUserProfile_outcome errorProfile_def subject_next)

theorem step1_failure_publishes_minimal_profile_witness:
  "basicProfile None = Inl TypeError \<and>
   (\<exists>p. userProfileSubject
           (snd (loadUserProfile None (Inl (RequestFailed ''offline'')) (Inr None) initialState))
           = Some p \<and>
        history
           (snd (loadUserProfile None (Inl (RequestFailed ''offline'')) (Inr None) initialState))
           = history initialState @ [LoadingNext True, ProfileNext (Some p), LoadingNext False] \<and>
        name p = ''User'' \<and> email p = '''' \<and> username p = '''' \<and>
        roles p = [''User''] \<and> groups p = [] \<and>
        permissions p = calculatePermissions [''User''])"
proof -
  have h: "basicProfile None = Inl TypeError" by (simp add: basicProfile_def)
  from h step1_failure_publishes_minimal_profile [OF h] show ?thesis by blast
qed

text \<open>
  C7. On every execution of \<open>loadUserProfile\<close>, whatever the account and whatever the
  directory answers, no error leaves the function, the values it pushes are: loading
  true first, then one profile, then loading false last; and it ends with that profile
  in the store and the loading flag false.
\<close>

theorem loadUserProfile_releases_and_publishes:
  "fst (loadUserProfile account gm gmo s) = Inr () \<and>
   (\<exists>p. history (snd (loadUserProfile account gm gmo s)) =
           history s @ [LoadingNext True, ProfileNext (Some p), LoadingNext False] \<and>
        userProfileSubject (snd (loadUserProfile account gm gmo s)) = Some p) \<and>
   isLoadingSubject (snd (loadUserProfile account gm gmo s)) = False"
  by (simp add: loadUserProfile_outcome subject_next)


section \<open>The store\<close>

text \<open>
  The blocks of \<open>loadUserProfile\<close>, run one after the other with nothing in between,
  leave the store that the function as a whole leaves.
\<close>

lemma loadUserProfile_blocks:
  "store (fire (fire (loadUserProfile_start account NoCallback \<lparr>store = s, tasks = []\<rparr>)
                 (Resume 0 env)) (Resume 0 env)) =
   snd (loadUserProfile account (graphMe env) (graphMemberOf env) s)"
  by (simp add: loadUserProfile_outcome loadUserProfile_start_def loadUserProfile_settled_def
        loadUserProfile_afterMyProfile_def loadUserProfile_afterMyGroups_def
        loadUserProfile_finally_def queue_def Let_def
      split: sum.splits)

lemma states_after_append:
  "states_after st (h @ es) =
     states_after st h @ states_after (foldl (\<lambda>st e. emit e st) st h) es"
  by (induction h arbitrary: st) simp_all

lemma store_ok_initialState: "store_ok initialState"
  by (simp add: store_ok_def replayed_def initialState_def)

lemma store_ok_loading: "store_ok s \<Longrightarrow> store_ok (isLoadingSubject_next b s)"
  by (auto simp: store_ok_def replayed_def isLoadingSubject_next_def states_after_append)

lemma store_ok_ready: "store_ok s \<Longrightarrow> store_ok (s\<lparr>isMsalInitialized := b\<rparr>)"
  by (simp add: store_ok_def replayed_def)

lemma store_ok_publish: "store_ok s \<Longrightarrow> store_ok (userProfileSubject_next (Some p) s)"
  by (auto simp: store_ok_def replayed_def userProfileSubject_next_def states_after_append)

lemma store_ok_clear:
  "store_ok s \<Longrightarrow> store_ok (isAuthenticatedSubject_next False (userProfileSubject_next None s))"
  by (auto simp: store_ok_def replayed_def userProfileSubject_next_def
        isAuthenticatedSubject_next_def states_after_append)

lemma store_ok_authenticated:
  "store_ok s \<Longrightarrow> userProfileSubject s \<noteq> None \<Longrightarrow> store_ok (isAuthenticatedSubject_next True s)"
  by (auto simp: store_ok_def replayed_def isAuthenticatedSubject_next_def states_after_append)

lemma store_ok_finally: "store_ok s \<Longrightarrow> store_ok (loadUserProfile_finally s)"
  by (simp add: loadUserProfile_finally_def store_ok_loading store_ok_ready)

lemma store_ok_reset: "store_ok s \<Longrightarrow> store_ok (reset s)"
  by (simp add: reset_def store_ok_clear store_ok_loading store_ok_ready)

lemma profile_loading:
  "userProfileSubject (isLoadingSubject_next b s) = userProfileSubject s"
  by (simp add: isLoadingSubject_next_def)

lemma profile_finally:
  "userProfileSubject (loadUserProfile_finally s) = userProfileSubject s"
  by (simp add: loadUserProfile_finally_def profile_loading)

lemma profile_publish: "userProfileSubject (userProfileSubject_next p s) = p"
  by (simp add: userProfileSubject_next_def)

lemma profile_authenticated:
  "userProfileSubject (isAuthenticatedSubject_next b s) = userProfileSubject s"
  by (simp add: isAuthenticatedSubject_next_def)

lemmas profile_kept = profile_loading profile_finally profile_publish profile_authenticated

text \<open>Queuing a task that is not the callback, and writing a store that keeps a profile.\<close>

lemma config_ok_queue:
  "config_ok c \<Longrightarrow> t \<noteq> AuthenticatedCallback \<Longrightarrow> config_ok (queue t c)"
  by (simp add: config_ok_def queue_def)

lemma config_ok_store:
  "config_ok c \<Longrightarrow> store_ok s' \<Longrightarrow>
   (userProfileSubject (store c) \<noteq> None \<longrightarrow> userProfileSubject s' \<noteq> None) \<Longrightarrow>
   config_ok (c\<lparr>store := s'\<rparr>)"
  by (simp add: config_ok_def)

lemma config_ok_settled:
  "config_ok c \<Longrightarrow> userProfileSubject (store c) \<noteq> None \<Longrightarrow>
   config_ok (loadUserProfile_settled k c)"
  by (cases k) (simp_all add: config_ok_def loadUserProfile_settled_def queue_def)

lemma config_ok_published:
  "config_ok c \<Longrightarrow>
   config_ok (loadUserProfile_settled k
                (c\<lparr>store := loadUserProfile_finally (userProfileSubject_next (Some p) s)\<rparr>))"
  if "store_ok s"
  using that
  by (intro config_ok_settled config_ok_store store_ok_finally store_ok_publish)
     (simp_all add: profile_kept)

lemma config_ok_start:
  assumes "config_ok c"
  shows "config_ok (loadUserProfile_start account k c)"
proof (cases "basicProfile account")
  case (Inl e)
  have "store_ok (isLoadingSubject_next True (store c))"
    using assms by (simp add: config_ok_def store_ok_loading)
  then show ?thesis
    using assms Inl by (simp add: loadUserProfile_start_def config_ok_published)
next
  case (Inr basic)
  have "config_ok (c\<lparr>store := isLoadingSubject_next True (store c)\<rparr>)"
    using assms
    by (intro config_ok_store) (simp_all add: config_ok_def store_ok_loading profile_kept)
  then show ?thesis
    using Inr by (simp add: loadUserProfile_start_def config_ok_queue)
qed

lemma config_ok_afterMyProfile:
  assumes "config_ok c"
  shows "config_ok (loadUserProfile_afterMyProfile basic k env c)"
proof (cases "getMyProfile (graphMe env)")
  case (Inl e)
  have "store_ok (store c)" using assms by (simp add: config_ok_def)
  then show ?thesis
    using assms Inl by (simp add: loadUserProfile_afterMyProfile_def config_ok_published)
next
  case (Inr gp)
  then show ?thesis
    using assms by (simp add: loadUserProfile_afterMyProfile_def config_ok_queue)
qed

lemma config_ok_afterMyGroups:
  assumes "config_ok c"
  shows "config_ok (loadUserProfile_afterMyGroups basic gp k env c)"
proof -
  have "store_ok (store c)" using assms by (simp add: config_ok_def)
  then show ?thesis
    using assms by (simp add: loadUserProfile_afterMyGroups_def config_ok_published)
qed

lemma config_ok_loading:
  "config_ok c \<Longrightarrow> config_ok (c\<lparr>store := isLoadingSubject_next b (store c)\<rparr>)"
  by (intro config_ok_store) (simp_all add: config_ok_def store_ok_loading profile_kept)

lemma config_ok_ready:
  "config_ok c \<Longrightarrow> config_ok (c\<lparr>store := (store c)\<lparr>isMsalInitialized := b\<rparr>\<rparr>)"
  by (intro config_ok_store) (simp_all add: config_ok_def store_ok_ready)

lemma config_ok_initializeAuth: "config_ok c \<Longrightarrow> config_ok (initializeAuth env c)"
  unfolding initializeAuth_def Let_def
  by (auto split: sum.splits intro!: config_ok_ready config_ok_start)

lemma config_ok_constructor: "config_ok (constructor env)"
  unfolding constructor_def
  by (rule config_ok_initializeAuth) (simp add: config_ok_def store_ok_initialState)

lemma config_ok_login_call: "config_ok c \<Longrightarrow> config_ok (login_call c)"
  unfolding login_call_def Let_def
  by (auto intro!: config_ok_queue config_ok_loading)

lemma config_ok_ensureMSALInitialized_resume:
  "config_ok c \<Longrightarrow> config_ok (ensureMSALInitialized_resume env c)"
  unfolding ensureMSALInitialized_resume_def
  by (auto split: sum.splits intro!: config_ok_queue config_ok_ready)

lemma config_ok_login_then: "config_ok c \<Longrightarrow> config_ok (login_then b c)"
  unfolding login_then_def
  by (auto intro!: config_ok_queue config_ok_loading)

lemma config_ok_login_popup: "config_ok c \<Longrightarrow> config_ok (login_popup env c)"
  unfolding login_popup_def Let_def
  by (auto split: sum.splits intro!: config_ok_loading config_ok_start)

lemma config_ok_logout_call: "config_ok c \<Longrightarrow> config_ok (logout_call c)"
  unfolding logout_call_def
  by (auto intro!: config_ok_queue config_ok_loading)

lemma config_ok_refreshUserProfile: "config_ok c \<Longrightarrow> config_ok (refreshUserProfile env c)"
  unfolding refreshUserProfile_def
  by (auto split: sum.splits intro!: config_ok_start)

text \<open>
  The two blocks that clear the profile keep the invariant when no callback of a
  finished load is waiting.
\<close>

lemma config_ok_logout_popup:
  assumes "config_ok c"
    and "(case logoutPopup env of Inr u \<Rightarrow> True | Inl e \<Rightarrow> False) \<longrightarrow>
           AuthenticatedCallback \<notin> set (tasks c)"
  shows "config_ok (logout_popup env c)"
proof (cases "logoutPopup env")
  case (Inl e)
  then show ?thesis using assms(1) by (simp add: logout_popup_def config_ok_loading)
next
  case (Inr u)
  have "store_ok (store c)" using assms(1) by (simp add: config_ok_def)
  then have "store_ok (isLoadingSubject_next False
                 (isAuthenticatedSubject_next False (userProfileSubject_next None (store c))))"
    by (intro store_ok_loading store_ok_clear)
  then show ?thesis using assms(2) Inr by (simp add: logout_popup_def config_ok_def)
qed

lemma config_ok_reset:
  "config_ok c \<Longrightarrow> AuthenticatedCallback \<notin> set (tasks c) \<Longrightarrow>
   config_ok (c\<lparr>store := reset (store c)\<rparr>)"
  by (simp add: config_ok_def store_ok_reset)

lemma config_ok_remove:
  "config_ok c \<Longrightarrow> config_ok (c\<lparr>tasks := take n (tasks c) @ drop (Suc n) (tasks c)\<rparr>)"
  by (auto simp: config_ok_def dest: in_set_takeD in_set_dropD)

lemma config_ok_callback:
  assumes "config_ok c" and "n < length (tasks c)" and "tasks c ! n = AuthenticatedCallback"
  shows "config_ok
           ((c\<lparr>tasks := take n (tasks c) @ drop (Suc n) (tasks c)\<rparr>)
              \<lparr>store := isAuthenticatedSubject_next True (store c)\<rparr>)"
proof -
  have "AuthenticatedCallback \<in> set (tasks c)"
    using assms(2,3) by (metis nth_mem)
  then have some: "userProfileSubject (store c) \<noteq> None"
    using assms(1) by (simp add: config_ok_def)
  have "store_ok (isAuthenticatedSubject_next True (store c))"
    using assms(1) some by (simp add: config_ok_def store_ok_authenticated)
  then show ?thesis using some by (simp add: config_ok_def profile_kept)
qed

lemma config_ok_fire:
  assumes "config_ok c" and "clears c e \<longrightarrow> AuthenticatedCallback \<notin> set (tasks c)"
  shows "config_ok (fire c e)"
proof (cases e)
  case (Call operation env)
  then show ?thesis
    using assms
    by (cases operation)
       (simp_all add: config_ok_login_call config_ok_logout_call config_ok_reset
          config_ok_refreshUserProfile)
next
  case (Resume n env)
  show ?thesis
  proof (cases "n < length (tasks c)")
    case False
    then show ?thesis using assms(1) Resume by simp
  next
    case True
    let ?c = "c\<lparr>tasks := take n (tasks c) @ drop (Suc n) (tasks c)\<rparr>"
    have rest: "config_ok ?c" using assms(1) by (rule config_ok_remove)
    have sub: "AuthenticatedCallback \<in> set (tasks ?c) \<Longrightarrow> AuthenticatedCallback \<in> set (tasks c)"
      by (auto dest: in_set_takeD in_set_dropD)
    show ?thesis
    proof (cases "tasks c ! n")
      case AuthenticatedCallback
      then show ?thesis
        using config_ok_callback [OF assms(1) True] Resume True by simp
    next
      case AwaitLogoutPopup
      have "(case logoutPopup env of Inr u \<Rightarrow> True | Inl e \<Rightarrow> False) \<longrightarrow>
              AuthenticatedCallback \<notin> set (tasks ?c)"
        using assms(2) Resume True AwaitLogoutPopup sub by auto
      then show ?thesis
        using config_ok_logout_popup [OF rest] Resume True AwaitLogoutPopup by simp
    qed (use rest Resume True in
          \<open>simp_all add: config_ok_afterMyProfile config_ok_afterMyGroups
             config_ok_ensureMSALInitialized_resume config_ok_login_then config_ok_login_popup\<close>)
  qed
qed

lemma config_ok_execute:
  "config_ok c \<Longrightarrow> clearing_apart c es \<Longrightarrow> config_ok (execute c es)"
  unfolding execute_def
  by (induction es arbitrary: c) (simp_all add: config_ok_fire)

lemmas evaluate_blocks =
  execute_def constructor_def initializeAuth_def initialState_def offline_session_def
  loadUserProfile_start_def loadUserProfile_afterMyProfile_def loadUserProfile_afterMyGroups_def
  loadUserProfile_settled_def loadUserProfile_finally_def queue_def
  login_call_def ensureMSALInitialized_resume_def login_then_def login_popup_def
  logout_call_def logout_popup_def reset_def refreshUserProfile_def
  basicProfile_def fallbackProfile_def getMyProfile_def or_string_def
  isLoadingSubject_next_def userProfileSubject_next_def isAuthenticatedSubject_next_def Let_def

text \<open>
  C8 as stated fails, in two ways. The constructor finds a cached account and starts the
  load; the directory fails, the load publishes the fallback profile and ends; \<open>reset()\<close>
  is called before the load's \<open>.then\<close> callback has run; the callback then sets the
  authenticated flag: the store is authenticated and holds no profile. And when a
  logged-in user logs out, the subscriber of \<open>logoutPopup\<close> pushes the null profile
  while the authenticated flag is still true.
\<close>

theorem authenticated_without_profile_counterexample:
  "isAuthenticatedSubject
     (store (execute (constructor offline_session)
               [Resume 0 offline_session, Call Reset offline_session,
                Resume 0 offline_session])) \<and>
   userProfileSubject
     (store (execute (constructor offline_session)
               [Resume 0 offline_session, Call Reset offline_session,
                Resume 0 offline_session])) = None \<and>
   (ProfileNext None, None, True)
     \<in> set (states_after (None, False)
               (history
                  (store (execute (constructor offline_session)
                            [Resume 0 offline_session, Resume 0 offline_session,
                             Call Logout offline_session, Resume 0 offline_session]))))"
  by (simp add: evaluate_blocks)

text \<open>
  C8, amended. Take any sequence of blocks of the initialization, login, logout, reset
  and profile load, in any interleaving and with any answers of the collaborators, in
  which neither \<open>reset\<close> nor the success branch of \<open>logout\<close> runs while the \<open>.then\<close>
  callback of a finished load is waiting. Then at the end of every block an
  authenticated store holds a profile; and among all the states the subjects go
  through, also inside a block, the only ones that are authenticated without a profile
  are those right after the null profile is pushed by \<open>logout\<close> or \<open>reset\<close>, before
  they push the flag. (The history is the store's: it replays to the current profile
  and flag.)
\<close>

theorem authenticated_implies_profile_when_clearing_apart:
  assumes "clearing_apart (constructor env) es"
  shows "(isAuthenticatedSubject (store (execute (constructor env) es)) \<longrightarrow>
            userProfileSubject (store (execute (constructor env) es)) \<noteq> None) \<and>
         (\<forall>(e, p, a) \<in> set (states_after (None, False)
                                (history (store (execute (constructor env) es)))).
             a \<and> p = None \<longrightarrow> e = ProfileNext None) \<and>
         replayed (store (execute (constructor env) es)) =
           (userProfileSubject (store (execute (constructor env) es)),
            isAuthenticatedSubject (store (execute (constructor env) es)))"
  using config_ok_execute [OF config_ok_constructor assms]
  unfolding config_ok_def store_ok_def by blast

theorem authenticated_implies_profile_when_clearing_apart_witness:
  "clearing_apart (constructor offline_session)
     [Resume 0 offline_session, Resume 0 offline_session] \<and>
   isAuthenticatedSubject
     (store (execute (constructor offline_session)
               [Resume 0 offline_session, Resume 0 offline_session])) \<and>
   userProfileSubject
     (store (execute (constructor offline_session)
               [Resume 0 offline_session, Resume 0 offline_session])) \<noteq> None \<and>
   clearing_apart (constructor offline_session)
     [Resume 0 offline_session, Resume 0 offline_session,
      Call Logout offline_session, Resume 0 offline_session] \<and>
   list_all (\<lambda>(e, p, a). a \<and> p = None \<longrightarrow> e = ProfileNext None)
     (states_after (None, False)
        (history
           (store (execute (constructor offline_session)
                     [Resume 0 offline_session, Resume 0 offline_session,
                      Call Logout offline_session, Resume 0 offline_session]))))"
proof -
  have apart1: "clearing_apart (constructor offline_session)
      [Resume 0 offline_session, Resume 0 offline_session]"
    by (simp add: evaluate_blocks)
  have on: "isAuthenticatedSubject
      (store (execute (constructor offline_session)
                [Resume 0 offline_session, Resume 0 offline_session]))"
    by (simp add: evaluate_blocks)
  have apart2: "clearing_apart (constructor offline_session)
      [Resume 0 offline_session, Resume 0 offline_session,
       Call Logout offline_session, Resume 0 offline_session]"
    by (simp add: evaluate_blocks)
  from apart1 on apart2 show ?thesis
    using authenticated_implies_profile_when_clearing_apart [OF apart1]
          authenticated_implies_profile_when_clearing_apart [OF apart2]
    unfolding list_all_iff by blast
qed

text \<open>
  The converse does not hold: a refresh on a store that is not authenticated publishes a
  profile and leaves the authenticated flag false.
\<close>

lemma profile_without_authenticated:
  "\<not> isAuthenticatedSubject
       (store (execute (constructor (offline_session\<lparr>getAllAccounts := Inr []\<rparr>))
                 [Call RefreshUserProfile offline_session, Resume 0 offline_session])) \<and>
   userProfileSubject
       (store (execute (constructor (offline_session\<lparr>getAllAccounts := Inr []\<rparr>))
                 [Call RefreshUserProfile offline_session, Resume 0 offline_session])) \<noteq> None"
  by (simp add: evaluate_blocks)
section \<open>Queries\<close>

text \<open>
  C9 as stated fails: after a load for an account whose only claimed role is the empty
  string, the roles are \<open>[""]\<close>, none of the four priority names is present, and
  \<open>getHighestRole\<close> returns \<open>User\<close>, which is not the first element of the roles.
\<close>

theorem getHighestRole_first_element_counterexample:
  "getRoles
     (snd (loadUserProfile
             (Some \<lparr>account_name = Some ''Ann'', account_username = Some ''ann@example.com'',
                    idTokenClaims = Some \<lparr>claims_roles = Some [''''], claims_jobTitle = None,
                                           claims_officeLocation = None\<rparr>\<rparr>)
             (Inl (RequestFailed ''offline'')) (Inr None) initialState)) = [''''] \<and>
   getHighestRole
     (snd (loadUserProfile
             (Some \<lparr>account_name = Some ''Ann'', account_username = Some ''ann@example.com'',
                    idTokenClaims = Some \<lparr>claims_roles = Some [''''], claims_jobTitle = None,
                                           claims_officeLocation = None\<rparr>\<rparr>)
             (Inl (RequestFailed ''offline'')) (Inr None) initialState)) = ''User'' \<and>
   ''User'' \<noteq> hd ['''']"
  by (simp add: loadUserProfile_outcome evaluate_profile subject_next getRoles_def
        getHighestRole_def roleHierarchy_def)

text \<open>
  C9, amended. \<open>getHighestRole\<close> returns \<open>User\<close> when no profile is loaded or the
  profile has no role; otherwise the first of \<open>Admin\<close>, \<open>Editor\<close>, \<open>Viewer\<close>, \<open>User\<close>
  that is among the roles; otherwise the first role, unless that role is the empty
  string, in which case it returns \<open>User\<close>.
\<close>

theorem getHighestRole_priority:
  "getHighestRole s =
     (case userProfileSubject s of
        None \<Rightarrow> ''User''
      | Some profile \<Rightarrow>
          if roles profile = [] then ''User''
          else if ''Admin'' \<in> set (roles profile) then ''Admin''
          else if ''Editor'' \<in> set (roles profile) then ''Editor''
          else if ''Viewer'' \<in> set (roles profile) then ''Viewer''
          else if ''User'' \<in> set (roles profile) then ''User''
          else if hd (roles profile) = '''' then ''User''
          else hd (roles profile))"
  by (simp add: getHighestRole_def roleHierarchy_def or_string_def
           split: option.splits list.splits)

text \<open>
  C10. When no profile is loaded, every query denies or returns the empty answer:
  \<open>hasRole\<close>, \<open>hasAnyRole\<close> and \<open>hasPermission\<close> are false for every argument,
  \<open>getRoles\<close> is the empty list and \<open>getPermissions\<close> is null. None of them has a
  path that throws.
\<close>

theorem queries_without_profile:
  assumes "userProfileSubject s = None"
  shows "\<not> hasRole s r \<and> \<not> hasAnyRole s wanted \<and> \<not> hasPermission s k \<and>
         getRoles s = [] \<and> getPermissions s = None"
  using assms
  by (simp add: hasRole_def hasAnyRole_def hasPermission_def getRoles_def getPermissions_def)

theorem queries_without_profile_witness:
  "userProfileSubject initialState = None \<and>
   \<not> hasRole initialState ''Admin'' \<and> \<not> hasAnyRole initialState [''Admin'', ''User''] \<and>
   \<not> hasPermission initialState CanViewDashboard \<and>
   getRoles initialState = [] \<and> getPermissions initialState = None"
proof -
  have h: "userProfileSubject initialState = None" by (simp add: initialState_def)
  from h queries_without_profile [OF h, of "''Admin''" "[''Admin'', ''User'']" CanViewDashboard]
  show ?thesis by blast
qed

end
